theory Spec2Isabelle
  imports Complex_Main "HOL-Library.AList" "HOL-Library.Char_ord" "HOL-Library.List_Lexorder"
    "HOL-Library.Log_Nat"
begin

section \<open>Values and failures of the Python scripts\<close>

text \<open>
  The three weather scripts \<^verbatim>\<open>dag_day_1.py\<close>, \<^verbatim>\<open>weather.py\<close> and \<^verbatim>\<open>dag_1.py\<close> each define
  a function \<^verbatim>\<open>analyze_weather_data\<close>. Temperatures are Python floats (IEEE binary64); a float
  is embedded as the rational it denotes, comparisons are exact, and every arithmetic
  operation of the code rounds its exact result to the nearest double. Dates are only
  stored and printed by the
  code, never inspected, so their type is a parameter \<open>'d\<close> (ISO strings in the list based
  scripts, timestamps in the pandas script).

  Every exception the interpreter can raise on the modelled paths, and every early
  \<^verbatim>\<open>return\<close> that produces no analysis, is a constructor of \<open>error\<close>.
\<close>

datatype error =
    NoValidData      \<comment> \<open>the guard printed its message and the function returned early\<close>
  | ValueError       \<comment> \<open>\<^verbatim>\<open>max()\<close> or \<^verbatim>\<open>min()\<close> of an empty sequence, \<^verbatim>\<open>list.index\<close> of an absent value\<close>
  | IndexError       \<comment> \<open>list subscript out of range\<close>
  | StatisticsError  \<comment> \<open>\<^verbatim>\<open>statistics.mean\<close> of no data\<close>
  | KeyError         \<comment> \<open>\<^verbatim>\<open>df.loc\<close> with a label that is not in the index\<close>

subsection \<open>Double precision arithmetic\<close>

text \<open>
  Rounding to the nearest integer, ties to the even one.
\<close>

definition round_half_even :: "rat \<Rightarrow> int" where
  "round_half_even y =
     (let f = \<lfloor>y\<rfloor>; d = y - of_int f
      in if d < 1 / 2 then f else if 1 / 2 < d then f + 1 else if even f then f else f + 1)"

text \<open>
  The exponent of the binade of \<open>x\<close>: the \<open>e\<close> with \<open>2\<^sup>e \<le> \<bar>x\<bar> < 2\<^sup>e\<^sup>+\<^sup>1\<close>, and \<open>-1022\<close> for the
  subnormal numbers below \<open>2\<^sup>-\<^sup>1\<^sup>0\<^sup>2\<^sup>2\<close>. Doubles have 53 significant bits, so neighbouring
  doubles of that binade are \<open>ulp x\<close> apart.
\<close>

definition scale_1022 :: rat where
  "scale_1022 = 2 ^ 1022"

definition binade :: "rat \<Rightarrow> int" where
  "binade x = max (bitlen \<lfloor>\<bar>x\<bar> * scale_1022\<rfloor> - 1023) (- 1022)"

definition ulp :: "rat \<Rightarrow> rat" where
  "ulp x = 2 powi (binade x - 52)"

text \<open>
  The double nearest to \<open>x\<close>, ties to even: the result of every float operation whose
  exact result is \<open>x\<close>. Overflow to infinity (magnitudes from \<open>2\<^sup>1\<^sup>0\<^sup>2\<^sup>4\<close> on) and NaN are not
  modelled; temperatures and their sums are far from both.
\<close>

definition round_double :: "rat \<Rightarrow> rat" where
  "round_double x = of_int (round_half_even (x / ulp x)) * ulp x"

subsection \<open>Builtins\<close>

text \<open>Sequencing of fallible steps: the first exception ends the run.\<close>

fun bind_res :: "error + 'a \<Rightarrow> ('a \<Rightarrow> error + 'b) \<Rightarrow> error + 'b" where
  "bind_res (Inl e) f = Inl e"
| "bind_res (Inr v) f = f v"

text \<open>\<^verbatim>\<open>xs[i]\<close> for an index \<open>i \<ge> 0\<close> (the loops only produce such indices).\<close>

definition getitem :: "'a list \<Rightarrow> nat \<Rightarrow> error + 'a" where
  "getitem xs i = (if i < length xs then Inr (xs ! i) else Inl IndexError)"

text \<open>
  The builtin \<^verbatim>\<open>max(xs)\<close>: it starts from the first item and replaces the running value
  only by an item that compares strictly greater; an empty list raises \<^verbatim>\<open>ValueError\<close>.
  \<^verbatim>\<open>min(xs)\<close> is the same with strictly less.
\<close>

fun max_py :: "rat list \<Rightarrow> error + rat" where
  "max_py [] = Inl ValueError"
| "max_py (x # xs) = Inr (fold (\<lambda>item m. if item > m then item else m) xs x)"

fun min_py :: "rat list \<Rightarrow> error + rat" where
  "min_py [] = Inl ValueError"
| "min_py (x # xs) = Inr (fold (\<lambda>item m. if item < m then item else m) xs x)"

text \<open>\<^verbatim>\<open>xs.index(v)\<close>: the position of the first item equal to \<open>v\<close>, \<^verbatim>\<open>ValueError\<close> if none.\<close>

fun index_py :: "rat list \<Rightarrow> rat \<Rightarrow> error + nat" where
  "index_py [] v = Inl ValueError"
| "index_py (x # xs) v = (if x = v then Inr 0 else map_sum id Suc (index_py xs v))"

text \<open>
  \<^verbatim>\<open>statistics.mean(xs)\<close>: the library adds the items as exact fractions, divides by their
  number and converts the quotient to a float once.
\<close>

definition mean :: "rat list \<Rightarrow> error + rat" where
  "mean xs = (if xs = [] then Inl StatisticsError
              else Inr (round_double (sum_list xs / of_nat (length xs))))"

section \<open>The input of the list based scripts\<close>

text \<open>
  \<^verbatim>\<open>weather_data['daily']\<close> is the JSON object of the archive API: three parallel lists
  under the keys \<^verbatim>\<open>time\<close>, \<^verbatim>\<open>temperature_2m_max\<close> and \<^verbatim>\<open>temperature_2m_min\<close>. Nothing in the
  type forces the lists to have one length. \<open>None\<close> stands for every value the guard
  \<^verbatim>\<open>not weather_data or 'daily' not in weather_data\<close> rejects (\<^verbatim>\<open>None\<close>, an empty dict, a
  dict without the key).
\<close>

record 'd daily_records =
  time :: "'d list"
  temperature_2m_max :: "rat list"
  temperature_2m_min :: "rat list"

type_synonym 'd weather_data = "'d daily_records option"

text \<open>Step 1 of both list based scripts: one printed line per date.\<close>

fun print_records ::
  "'d list \<Rightarrow> rat list \<Rightarrow> rat list \<Rightarrow> nat list \<Rightarrow> error + ('d \<times> rat \<times> rat) list" where
  "print_records dates max_temps min_temps [] = Inr []"
| "print_records dates max_temps min_temps (i # rest) =
     bind_res (getitem dates i) (\<lambda>d.
     bind_res (getitem max_temps i) (\<lambda>mx.
     bind_res (getitem min_temps i) (\<lambda>mn.
     bind_res (print_records dates max_temps min_temps rest) (\<lambda>printed.
       Inr ((d, mx, mn) # printed)))))"

section \<open>\<^verbatim>\<open>dag_day_1.py\<close>: anomalies relative to the weekly mean\<close>

text \<open>The module level constant; the function reads it when it runs.\<close>

definition ANOMALY_THRESHOLD_DEGREES :: rat where
  "ANOMALY_THRESHOLD_DEGREES = 5"

text \<open>The two anomaly lines the loop can print for a day.\<close>

datatype 'd anomaly =
    HotAnomaly 'd rat
  | ColdAnomaly 'd rat

text \<open>
  The anomaly loop, lines 81 to 92. The state threaded through it is the flag
  \<^verbatim>\<open>anomalies_found\<close>; the result also carries the lines printed, in order. The two
  \<^verbatim>\<open>if\<close> statements of the body are separate, not \<^verbatim>\<open>if/elif\<close>. The bounds
  \<^verbatim>\<open>avg_max_temp + ANOMALY_THRESHOLD_DEGREES\<close> and \<^verbatim>\<open>avg_min_temp - ANOMALY_THRESHOLD_DEGREES\<close>
  are float operations.
\<close>

fun spot_anomalies ::
  "rat \<Rightarrow> rat \<Rightarrow> rat \<Rightarrow> 'd list \<Rightarrow> rat list \<Rightarrow> rat list \<Rightarrow> nat list \<Rightarrow> bool
     \<Rightarrow> error + (bool \<times> 'd anomaly list)" where
  "spot_anomalies threshold avg_max avg_min dates max_temps min_temps [] found =
     Inr (found, [])"
| "spot_anomalies threshold avg_max avg_min dates max_temps min_temps (i # rest) found =
     bind_res (getitem max_temps i) (\<lambda>mx.
     bind_res (if mx > round_double (avg_max + threshold)
               then bind_res (getitem dates i) (\<lambda>d. Inr (True, [HotAnomaly d mx]))
               else Inr (found, [])) (\<lambda>(found1, hot).
     bind_res (getitem min_temps i) (\<lambda>mn.
     bind_res (if mn < round_double (avg_min - threshold)
               then bind_res (getitem dates i) (\<lambda>d. Inr (True, [ColdAnomaly d mn]))
               else Inr (found1, [])) (\<lambda>(found2, cold).
     bind_res (spot_anomalies threshold avg_max avg_min dates max_temps min_temps rest found2)
       (\<lambda>(found3, printed). Inr (found3, hot @ cold @ printed))))))"

text \<open>
  What a run computes and prints, as one value. Steps 1 to 3 are the same text in
  \<^verbatim>\<open>dag_day_1.py\<close> and \<^verbatim>\<open>weather.py\<close>; each script extends it by what its step 4 prints.
\<close>

record 'd extremes =
  records :: "('d \<times> rat \<times> rat) list"
  highest_temp :: rat
  lowest_temp :: rat
  date_of_highest :: 'd
  date_of_lowest :: 'd

record 'd report = "'d extremes" +
  avg_max_temp :: rat
  avg_min_temp :: rat
  anomalies :: "'d anomaly list"
  anomalies_found :: bool

text \<open>
  \<^verbatim>\<open>analyze_weather_data\<close> of \<^verbatim>\<open>dag_day_1.py\<close>. The first argument is the value of the global
  \<^verbatim>\<open>ANOMALY_THRESHOLD_DEGREES\<close> at the time of the call.
\<close>

definition dag_day_1_analyze_weather_data ::
  "rat \<Rightarrow> 'd weather_data \<Rightarrow> error + 'd report" where
  "dag_day_1_analyze_weather_data threshold weather_data =
     (case weather_data of
        None \<Rightarrow> Inl NoValidData
      | Some daily \<Rightarrow>
          (let dates = time daily;
               max_temps = temperature_2m_max daily;
               min_temps = temperature_2m_min daily
           in
           bind_res (print_records dates max_temps min_temps [0..<length dates]) (\<lambda>printed.
           bind_res (max_py max_temps) (\<lambda>highest.
           bind_res (min_py min_temps) (\<lambda>lowest.
           bind_res (index_py max_temps highest) (\<lambda>ih.
           bind_res (getitem dates ih) (\<lambda>dh.
           bind_res (index_py min_temps lowest) (\<lambda>il.
           bind_res (getitem dates il) (\<lambda>dl.
           bind_res (mean max_temps) (\<lambda>avg_max.
           bind_res (mean min_temps) (\<lambda>avg_min.
           bind_res (spot_anomalies threshold avg_max avg_min dates max_temps min_temps
                       [0..<length dates] False) (\<lambda>(found, printed_anomalies).
             Inr \<lparr>records = printed, highest_temp = highest, lowest_temp = lowest,
                  date_of_highest = dh, date_of_lowest = dl,
                  avg_max_temp = avg_max, avg_min_temp = avg_min,
                  anomalies = printed_anomalies, anomalies_found = found\<rparr>))))))))))))"

section \<open>\<^verbatim>\<open>weather.py\<close>: anomalies relative to fixed climate normals\<close>

definition NORMAL_MAX_TEMP_HYD :: rat where
  "NORMAL_MAX_TEMP_HYD = 59 / 2"

definition NORMAL_MIN_TEMP_HYD :: rat where
  "NORMAL_MIN_TEMP_HYD = 45 / 2"

definition weather_ANOMALY_THRESHOLD_DEGREES :: rat where
  "weather_ANOMALY_THRESHOLD_DEGREES = 5 / 2"

text \<open>The two lines of the loop; each carries the date, the temperature and \<^verbatim>\<open>diff\<close>.\<close>

datatype 'd unusual_day =
    UnusuallyHot 'd rat rat
  | UnusuallyCold 'd rat rat

text \<open>
  The anomaly loop of \<^verbatim>\<open>weather.py\<close>, lines 78 to 90. The bounds and differences are
  taken exactly: with the constants of the script, 29.5, 22.5 and 2.5, the float sum 32.0
  and the float difference 20.0 are exact.
\<close>

fun spot_unusual_days ::
  "rat \<Rightarrow> rat \<Rightarrow> rat \<Rightarrow> 'd list \<Rightarrow> rat list \<Rightarrow> rat list \<Rightarrow> nat list \<Rightarrow> bool
     \<Rightarrow> error + (bool \<times> 'd unusual_day list)" where
  "spot_unusual_days normal_max normal_min threshold dates max_temps min_temps [] found =
     Inr (found, [])"
| "spot_unusual_days normal_max normal_min threshold dates max_temps min_temps (i # rest) found =
     bind_res (getitem max_temps i) (\<lambda>mx.
     bind_res (if mx > normal_max + threshold
               then bind_res (getitem dates i) (\<lambda>d.
                      Inr (True, [UnusuallyHot d mx (mx - normal_max)]))
               else Inr (found, [])) (\<lambda>(found1, hot).
     bind_res (getitem min_temps i) (\<lambda>mn.
     bind_res (if mn < normal_min - threshold
               then bind_res (getitem dates i) (\<lambda>d.
                      Inr (True, [UnusuallyCold d mn (normal_min - mn)]))
               else Inr (found1, [])) (\<lambda>(found2, cold).
     bind_res (spot_unusual_days normal_max normal_min threshold dates max_temps min_temps
                 rest found2)
       (\<lambda>(found3, printed). Inr (found3, hot @ cold @ printed))))))"

record 'd normals_report = "'d extremes" +
  unusual_days :: "'d unusual_day list"
  unusual_found :: bool

text \<open>
  \<^verbatim>\<open>analyze_weather_data\<close> of \<^verbatim>\<open>weather.py\<close>. The first three arguments are the values of
  the globals \<^verbatim>\<open>NORMAL_MAX_TEMP_HYD\<close>, \<^verbatim>\<open>NORMAL_MIN_TEMP_HYD\<close> and
  \<^verbatim>\<open>ANOMALY_THRESHOLD_DEGREES\<close> at the time of the call.
\<close>

definition weather_analyze_weather_data ::
  "rat \<Rightarrow> rat \<Rightarrow> rat \<Rightarrow> 'd weather_data \<Rightarrow> error + 'd normals_report" where
  "weather_analyze_weather_data normal_max normal_min threshold weather_data =
     (case weather_data of
        None \<Rightarrow> Inl NoValidData
      | Some daily \<Rightarrow>
          (let dates = time daily;
               max_temps = temperature_2m_max daily;
               min_temps = temperature_2m_min daily
           in
           bind_res (print_records dates max_temps min_temps [0..<length dates]) (\<lambda>printed.
           bind_res (max_py max_temps) (\<lambda>highest.
           bind_res (min_py min_temps) (\<lambda>lowest.
           bind_res (index_py max_temps highest) (\<lambda>ih.
           bind_res (getitem dates ih) (\<lambda>dh.
           bind_res (index_py min_temps lowest) (\<lambda>il.
           bind_res (getitem dates il) (\<lambda>dl.
           bind_res (spot_unusual_days normal_max normal_min threshold dates max_temps
                       min_temps [0..<length dates] False) (\<lambda>(found, printed_days).
             Inr \<lparr>records = printed, highest_temp = highest, lowest_temp = lowest,
                  date_of_highest = dh, date_of_lowest = dl,
                  unusual_days = printed_days, unusual_found = found\<rparr>))))))))))"

section \<open>\<^verbatim>\<open>dag_1.py\<close>: the pandas script\<close>

text \<open>
  The DataFrame that \<^verbatim>\<open>get_weather_data\<close> builds has the columns \<^verbatim>\<open>date\<close>,
  \<^verbatim>\<open>max_temp_celsius\<close> and \<^verbatim>\<open>min_temp_celsius\<close> over the default index \<open>0, 1, 2, \<dots>\<close>, so a
  row label is a position. A frame is its list of rows together with the numeric columns
  added to it later, by name and in column order. \<^verbatim>\<open>df.empty\<close> holds when there is no row.
  The temperature columns are float64, as the readings of the API are decimal fractions.
\<close>

record 'd row =
  date_ts :: 'd                \<comment> \<open>column \<^verbatim>\<open>date\<close>\<close>
  max_temp_celsius :: rat
  min_temp_celsius :: rat

record 'd dataframe =
  rows :: "'d row list"
  added :: "(string \<times> rat list) list"

text \<open>
  \<^verbatim>\<open>df[name] = values\<close> writes into the frame the caller passed: an existing column is
  replaced where it stands, a new one is appended.
\<close>

definition setitem :: "'d dataframe \<Rightarrow> string \<Rightarrow> rat list \<Rightarrow> 'd dataframe" where
  "setitem df name vals = df\<lparr>added := AList.update name vals (added df)\<rparr>"

text \<open>\<^verbatim>\<open>df[name]\<close> for one of the added columns.\<close>

definition getcol :: "'d dataframe \<Rightarrow> string \<Rightarrow> error + rat list" where
  "getcol df name = (case map_of (added df) name of None \<Rightarrow> Inl KeyError | Some c \<Rightarrow> Inr c)"

text \<open>
  \<^verbatim>\<open>Series.idxmax()\<close> and \<^verbatim>\<open>Series.idxmin()\<close>: the label of the first row that holds the
  maximum (minimum) value; \<^verbatim>\<open>ValueError\<close> on an empty series.
\<close>

definition idxmax :: "rat list \<Rightarrow> error + nat" where
  "idxmax xs = bind_res (max_py xs) (index_py xs)"

definition idxmin :: "rat list \<Rightarrow> error + nat" where
  "idxmin xs = bind_res (min_py xs) (index_py xs)"

text \<open>\<^verbatim>\<open>df.loc[label]\<close>: the row with that label.\<close>

definition loc :: "'a list \<Rightarrow> nat \<Rightarrow> error + 'a" where
  "loc rs label = (if label < length rs then Inr (rs ! label) else Inl KeyError)"

text \<open>
  \<^verbatim>\<open>Series.mean()\<close> of a float64 series with at least one value: the float sum of the
  values divided by their count. The sum is accumulated in row order, one rounding per
  addition. (On an empty series pandas returns NaN; the guard on \<^verbatim>\<open>df.empty\<close> keeps that case
  away from the call.)
\<close>

definition series_sum :: "rat list \<Rightarrow> rat" where
  "series_sum xs = fold (\<lambda>x acc. round_double (acc + x)) xs 0"

definition series_mean :: "rat list \<Rightarrow> rat" where
  "series_mean xs = round_double (series_sum xs / of_nat (length xs))"

datatype direction = Above | Below

text \<open>One line of the loop over \<^verbatim>\<open>significant_deviations\<close>.\<close>

record 'd deviation_line =
  day_date :: 'd
  day_temp :: rat
  deviation :: rat
  direction :: direction

record 'd pd_report =
  printed_table :: "'d dataframe"        \<comment> \<open>\<^verbatim>\<open>df.to_string(index=False)\<close>\<close>
  highest_temp_record :: "'d row"
  lowest_temp_record :: "'d row"
  max_fluctuation :: rat
  date_of_anomaly :: 'd
  pd_avg_max_temp :: rat
  significant_deviations :: "'d deviation_line list"

text \<open>
  \<^verbatim>\<open>analyze_weather_data\<close> of \<^verbatim>\<open>dag_1.py\<close>. The function assigns two columns to the frame it
  was given, so the model returns the frame as the call leaves it next to the outcome.
\<close>

definition dag_1_analyze_weather_data ::
  "'d dataframe option \<Rightarrow> 'd dataframe option \<times> (error + 'd pd_report)" where
  "dag_1_analyze_weather_data arg =
     (case arg of
        None \<Rightarrow> (None, Inl NoValidData)
      | Some df \<Rightarrow>
          if rows df = [] then (Some df, Inl NoValidData)
          else
            (case bind_res (idxmax (map max_temp_celsius (rows df))) (loc (rows df)) of
               Inl e \<Rightarrow> (Some df, Inl e)
             | Inr highest \<Rightarrow>
            (case bind_res (idxmin (map min_temp_celsius (rows df))) (loc (rows df)) of
               Inl e \<Rightarrow> (Some df, Inl e)
             | Inr lowest \<Rightarrow>
            (let df1 = setitem df ''temp_fluctuation''
                         (map (\<lambda>r. round_double (max_temp_celsius r - min_temp_celsius r))
                            (rows df))
             in
            (case bind_res (getcol df1 ''temp_fluctuation'') (\<lambda>fluct.
                  bind_res (idxmax fluct) (\<lambda>k.
                  bind_res (loc (zip (rows df1) fluct) k) Inr)) of
               Inl e \<Rightarrow> (Some df1, Inl e)
             | Inr (anomaly_row, anomaly_fluct) \<Rightarrow>
            (let avg_max_temp = series_mean (map max_temp_celsius (rows df1));
                 df2 = setitem df1 ''deviation_from_avg''
                         (map (\<lambda>r. \<bar>round_double (max_temp_celsius r - avg_max_temp)\<bar>)
                            (rows df1))
             in
            (case getcol df2 ''deviation_from_avg'' of
               Inl e \<Rightarrow> (Some df2, Inl e)
             | Inr dev \<Rightarrow>
                 (Some df2,
                  Inr \<lparr>printed_table = df,
                       highest_temp_record = highest,
                       lowest_temp_record = lowest,
                       max_fluctuation = anomaly_fluct,
                       date_of_anomaly = date_ts anomaly_row,
                       pd_avg_max_temp = avg_max_temp,
                       significant_deviations =
                         map (\<lambda>(r, d).
                                \<lparr>day_date = date_ts r,
                                 day_temp = max_temp_celsius r,
                                 deviation = d,
                                 direction = (if max_temp_celsius r > avg_max_temp
                                              then Above else Below)\<rparr>)
                             (filter (\<lambda>(r, d). d > 2) (zip (rows df2) dev))\<rparr>))))))))"

section \<open>Windows\<close>

text \<open>
  The window of the specification: the samples of consecutive days, oldest first. The
  data source hands it to the list based scripts as the three parallel lists of the API
  response and to the pandas script as a fresh frame with one row per day.
\<close>

record 'd daily_sample =
  date :: 'd
  max_temp :: rat
  min_temp :: rat

definition to_weather_data :: "'d daily_sample list \<Rightarrow> 'd weather_data" where
  "to_weather_data w =
     Some \<lparr>time = map date w,
           temperature_2m_max = map max_temp w,
           temperature_2m_min = map min_temp w\<rparr>"

definition to_row :: "'d daily_sample \<Rightarrow> 'd row" where
  "to_row s = \<lparr>date_ts = date s, max_temp_celsius = max_temp s, min_temp_celsius = min_temp s\<rparr>"

definition to_dataframe :: "'d daily_sample list \<Rightarrow> 'd dataframe option" where
  "to_dataframe w = Some \<lparr>rows = map to_row w, added = []\<rparr>"

section \<open>Reading a report\<close>

text \<open>
  The hot and the cold lines among the printed anomaly lines, each in printed order, as
  pairs of date and temperature.
\<close>

fun hot_anomalies :: "'d anomaly list \<Rightarrow> ('d \<times> rat) list" where
  "hot_anomalies [] = []"
| "hot_anomalies (HotAnomaly d t # rest) = (d, t) # hot_anomalies rest"
| "hot_anomalies (ColdAnomaly d t # rest) = hot_anomalies rest"

fun cold_anomalies :: "'d anomaly list \<Rightarrow> ('d \<times> rat) list" where
  "cold_anomalies [] = []"
| "cold_anomalies (HotAnomaly d t # rest) = cold_anomalies rest"
| "cold_anomalies (ColdAnomaly d t # rest) = (d, t) # cold_anomalies rest"



text \<open>The arithmetic mean of one reading over a window.\<close>

definition window_mean :: "('d daily_sample \<Rightarrow> rat) \<Rightarrow> 'd daily_sample list \<Rightarrow> rat" where
  "window_mean f w = sum_list (map f w) / of_nat (length w)"

text \<open>
  A report names the earliest tied sample: \<open>d\<close> is the date of the first sample of the
  window whose reading \<open>f\<close> is \<open>v\<close>, and when the window is in chronological order no
  sample with that reading has an earlier date.
\<close>

definition earliest_with ::
  "('d::linorder) daily_sample list \<Rightarrow> ('d daily_sample \<Rightarrow> rat) \<Rightarrow> rat \<Rightarrow> 'd \<Rightarrow> bool" where
  "earliest_with w f v d \<longleftrightarrow>
     map_option date (find (\<lambda>s. f s = v) w) = Some d \<and>
     (sorted_wrt (<) (map date w) \<longrightarrow> (\<forall>s \<in> set w. f s = v \<longrightarrow> d \<le> date s))"

text \<open>Everything a run of the pandas script reports, apart from the table it prints first.\<close>

definition reported_values ::
  "'d pd_report \<Rightarrow> 'd row \<times> 'd row \<times> rat \<times> 'd \<times> rat \<times> 'd deviation_line list" where
  "reported_values r =
     (highest_temp_record r, lowest_temp_record r, max_fluctuation r, date_of_anomaly r,
      pd_avg_max_temp r, significant_deviations r)"

text \<open>The line the pandas script prints for a day it flags.\<close>

definition deviation_line_of :: "rat \<Rightarrow> 'd row \<Rightarrow> 'd deviation_line" where
  "deviation_line_of avg r =
     \<lparr>day_date = date_ts r, day_temp = max_temp_celsius r,
      deviation = \<bar>round_double (max_temp_celsius r - avg)\<bar>,
      direction = (if max_temp_celsius r > avg then Above else Below)\<rparr>"

text \<open>The lines one day contributes to the anomaly loop of each list based script.\<close>

definition anomaly_lines :: "rat \<Rightarrow> rat \<Rightarrow> rat \<Rightarrow> 'd daily_sample \<Rightarrow> 'd anomaly list" where
  "anomaly_lines threshold avg_max avg_min s =
     (if max_temp s > round_double (avg_max + threshold)
      then [HotAnomaly (date s) (max_temp s)] else []) @
     (if min_temp s < round_double (avg_min - threshold)
      then [ColdAnomaly (date s) (min_temp s)] else [])"

definition unusual_lines :: "rat \<Rightarrow> rat \<Rightarrow> rat \<Rightarrow> 'd daily_sample \<Rightarrow> 'd unusual_day list" where
  "unusual_lines normal_max normal_min threshold s =
     (if max_temp s > normal_max + threshold
      then [UnusuallyHot (date s) (max_temp s) (max_temp s - normal_max)] else []) @
     (if min_temp s < normal_min - threshold
      then [UnusuallyCold (date s) (min_temp s) (normal_min - min_temp s)] else [])"

text \<open>The two columns the pandas script derives from the rows of a frame.\<close>

definition fluctuations :: "'d row list \<Rightarrow> rat list" where
  "fluctuations rs = map (\<lambda>r. round_double (max_temp_celsius r - min_temp_celsius r)) rs"

definition deviations :: "'d row list \<Rightarrow> rat list" where
  "deviations rs =
     map (\<lambda>r. \<bar>round_double (max_temp_celsius r - series_mean (map max_temp_celsius rs))\<bar>) rs"

section \<open>Example windows\<close>

text \<open>The three day window of the specification's worked example.\<close>

definition example_window :: "string daily_sample list" where
  "example_window =
     [\<lparr>date = ''2024-01-01'', max_temp = 30, min_temp = 20\<rparr>,
      \<lparr>date = ''2024-01-02'', max_temp = 35, min_temp = 18\<rparr>,
      \<lparr>date = ''2024-01-03'', max_temp = 28, min_temp = 22\<rparr>]"

text \<open>A window whose second and third day tie on both extremes.\<close>

definition tied_window :: "string daily_sample list" where
  "tied_window =
     [\<lparr>date = ''2024-01-01'', max_temp = 30, min_temp = 20\<rparr>,
      \<lparr>date = ''2024-01-02'', max_temp = 35, min_temp = 18\<rparr>,
      \<lparr>date = ''2024-01-03'', max_temp = 35, min_temp = 18\<rparr>]"




definition two_sided_window :: "string daily_sample list" where
  "two_sided_window =
     [\<lparr>date = ''2024-01-01'', max_temp = 33, min_temp = 20\<rparr>,
      \<lparr>date = ''2024-01-02'', max_temp = 28, min_temp = 20\<rparr>,
      \<lparr>date = ''2024-01-03'', max_temp = 28, min_temp = 20\<rparr>,
      \<lparr>date = ''2024-01-04'', max_temp = 23, min_temp = 20\<rparr>]"

section \<open>Facts about rounding\<close>

lemma round_half_even_nearest:
  "\<bar>y - of_int (round_half_even y)\<bar> < 1 / 2 \<or>
   (\<bar>y - of_int (round_half_even y)\<bar> = 1 / 2 \<and> even (round_half_even y))"
proof -
  define f where "f = \<lfloor>y\<rfloor>"
  define d where "d = y - of_int f"
  have d: "0 \<le> d" "d < 1" unfolding d_def f_def by linarith+
  have y: "y = of_int f + d" unfolding d_def by simp
  have r: "round_half_even y =
      (if d < 1 / 2 then f else if 1 / 2 < d then f + 1 else if even f then f else f + 1)"
    unfolding round_half_even_def Let_def d_def f_def by simp
  have y0: "y - of_int f = d" and y1: "y - of_int (f + 1) = d - 1"
    unfolding d_def by simp_all
  consider "d < 1 / 2" | "1 / 2 < d" | "d = 1 / 2" "even f" | "d = 1 / 2" "odd f"
    by fastforce
  then show ?thesis
  proof cases
    case 1 then show ?thesis using d unfolding r by (simp only: if_True y0) simp
  next
    case 2
    then have "\<not> d < 1 / 2" by simp
    with 2 show ?thesis using d unfolding r by (simp only: if_True if_False y1) simp
  next
    case 3
    then have r3: "round_half_even y = f" unfolding r by simp
    show ?thesis unfolding r3 y0 using 3 by simp
  next
    case 4
    then have r4: "round_half_even y = f + 1" unfolding r by simp
    show ?thesis unfolding r4 y1 using 4 by simp
  qed
qed

lemma round_half_even_eqI:
  assumes "\<bar>y - of_int n\<bar> < 1 / 2 \<or> (\<bar>y - of_int n\<bar> = 1 / 2 \<and> even n)"
  shows "round_half_even y = n"
proof -
  let ?m = "round_half_even y"
  note m = round_half_even_nearest [of y]
  have tri: "\<bar>(of_int n :: rat) - of_int ?m\<bar> \<le> \<bar>y - of_int n\<bar> + \<bar>y - of_int ?m\<bar>"
    by linarith
  show ?thesis
  proof (cases "\<bar>y - of_int n\<bar> < 1 / 2 \<or> \<bar>y - of_int ?m\<bar> < 1 / 2")
    case True
    with assms m tri have "\<bar>(of_int n :: rat) - of_int ?m\<bar> < 1" by linarith
    then have "\<bar>(of_int (n - ?m) :: rat)\<bar> < 1" by simp
    then have "\<bar>n - ?m\<bar> < 1" unfolding of_int_abs [symmetric] by (simp only: of_int_less_1_iff)
    then show ?thesis by linarith
  next
    case False
    with assms m have e: "even n" "even ?m"
      and "\<bar>y - of_int n\<bar> = 1 / 2" "\<bar>y - of_int ?m\<bar> = 1 / 2" by auto
    with tri have "\<bar>(of_int n :: rat) - of_int ?m\<bar> \<le> 1" by linarith
    then have "\<bar>(of_int (n - ?m) :: rat)\<bar> \<le> 1" by simp
    then have "\<bar>n - ?m\<bar> \<le> 1" unfolding of_int_abs [symmetric] by (simp only: of_int_le_1_iff)
    moreover from e have "even (n - ?m)" by simp
    ultimately show ?thesis by presburger
  qed
qed

lemma round_half_even_of_int [simp]: "round_half_even (of_int n) = n"
  by (rule round_half_even_eqI) simp

lemma round_half_even_minus: "round_half_even (- y) = - round_half_even y"
proof (rule round_half_even_eqI)
  have "\<bar>- y - of_int (- round_half_even y)\<bar> = \<bar>y - of_int (round_half_even y)\<bar>"
    by simp
  with round_half_even_nearest [of y]
  show "\<bar>- y - of_int (- round_half_even y)\<bar> < 1 / 2 \<or>
    (\<bar>- y - of_int (- round_half_even y)\<bar> = 1 / 2 \<and> even (- round_half_even y))"
    by simp
qed

lemma round_half_even_error: "\<bar>y - of_int (round_half_even y)\<bar> \<le> 1 / 2"
  using round_half_even_nearest [of y] by linarith

lemma round_half_even_mono:
  assumes "x \<le> y"
  shows "round_half_even x \<le> round_half_even y"
proof (rule ccontr)
  let ?a = "round_half_even x" and ?b = "round_half_even y"
  assume "\<not> ?a \<le> ?b"
  then have ab: "?b + 1 \<le> ?a" by simp
  then have ab': "(of_int ?b :: rat) + 1 \<le> of_int ?a"
    by (metis of_int_1 of_int_add of_int_le_iff)
  note ex = round_half_even_error [of x] and ey = round_half_even_error [of y]
  from ab' ex ey assms have xy: "x = y" by linarith
  with ab show False by simp
qed


lemma scale_1022_pos: "0 < scale_1022"
  by (simp only: scale_1022_def zero_less_power zero_less_numeral)

lemma pow2_scale:
  assumes "0 \<le> k"
  shows "(2 :: rat) powi (k - 1022) = 2 ^ nat k / scale_1022"
proof -
  have "(2 :: rat) powi (k - 1022) = 2 powi k / 2 powi 1022"
    by (rule power_int_diff) simp
  also have "(2 :: rat) powi k = 2 ^ nat k" using assms by (rule power_int_nonneg_exp)
  also have "(2 :: rat) powi 1022 = scale_1022"
    by (simp only: scale_1022_def power_int_numeral)
  finally show ?thesis .
qed

lemma binade_minus [simp]: "binade (- x) = binade x"
  by (simp add: binade_def)

lemma binade_ge: "- 1022 \<le> binade x"
  by (simp add: binade_def)

lemma binade_cases:
  obtains (subnormal) "\<bar>x\<bar> < 2 powi (- 1022)" "binade x = - 1022"
  | (normal) b where "1 \<le> b" "binade x = b - 1023"
      "2 ^ nat (b - 1) \<le> \<bar>x\<bar> * scale_1022" "\<bar>x\<bar> * scale_1022 < 2 ^ nat b"
proof -
  define n where "n = \<lfloor>\<bar>x\<bar> * scale_1022\<rfloor>"
  have n0: "0 \<le> n" unfolding n_def using scale_1022_pos by simp
  have nb: "of_int n \<le> \<bar>x\<bar> * scale_1022" "\<bar>x\<bar> * scale_1022 < of_int n + 1"
    unfolding n_def by linarith+
  show thesis
  proof (cases "n = 0")
    case True
    with nb have "\<bar>x\<bar> * scale_1022 < 1" by simp
    then have "\<bar>x\<bar> < 2 ^ nat 0 / scale_1022"
      using scale_1022_pos by (simp add: pos_less_divide_eq)
    also have "2 ^ nat 0 / scale_1022 = 2 powi (0 - 1022)"
      by (rule pow2_scale [symmetric]) simp
    finally have "\<bar>x\<bar> < 2 powi (- 1022)" by simp
    moreover have "binade x = - 1022" using True by (simp add: binade_def n_def [symmetric])
    ultimately show ?thesis by (rule subnormal)
  next
    case False
    with n0 have pos: "0 < n" by simp
    define b where "b = bitlen n"
    from bitlen_bounds [OF pos]
    have bb: "2 ^ nat (b - 1) \<le> n" "n < 2 ^ nat b" unfolding b_def by simp_all
    have b1: "1 \<le> b"
    proof (rule ccontr)
      assume "\<not> 1 \<le> b"
      then have "nat b = 0" by simp
      with bb(2) pos show False by simp
    qed
    have "(of_int (2 ^ nat (b - 1)) :: rat) \<le> of_int n" using bb(1) by (simp only: of_int_le_iff)
    then have "(2 :: rat) ^ nat (b - 1) \<le> of_int n" by simp
    with nb(1) have lo: "2 ^ nat (b - 1) \<le> \<bar>x\<bar> * scale_1022" by linarith
    have "n + 1 \<le> 2 ^ nat b" using bb(2) by simp
    then have "(of_int (n + 1) :: rat) \<le> of_int (2 ^ nat b)" by (simp only: of_int_le_iff)
    then have "(of_int n :: rat) + 1 \<le> 2 ^ nat b" by simp
    with nb(2) have hi: "\<bar>x\<bar> * scale_1022 < 2 ^ nat b" by linarith
    have "binade x = b - 1023" using b1 by (simp add: binade_def n_def [symmetric] b_def [symmetric])
    with b1 show ?thesis using lo hi by (rule normal)
  qed
qed

lemma binade_upper: "\<bar>x\<bar> < 2 powi (binade x + 1)"
proof (cases x rule: binade_cases)
  case subnormal
  have "(2 :: rat) powi (- 1022) \<le> 2 powi (- 1022 + 1)" by (rule power_int_increasing) simp_all
  with subnormal show ?thesis by (simp only:)
next
  case (normal b)
  from normal(1) have "(2 :: rat) powi (b - 1022) = 2 ^ nat b / scale_1022"
    by (intro pow2_scale) simp
  moreover from normal(4) have "\<bar>x\<bar> < 2 ^ nat b / scale_1022"
    using scale_1022_pos by (simp add: pos_less_divide_eq)
  moreover have "binade x + 1 = b - 1022" using normal(2) by simp
  ultimately show ?thesis by (simp only:)
qed

lemma binade_lower:
  assumes "- 1022 < binade x"
  shows "2 powi binade x \<le> \<bar>x\<bar>"
proof (cases x rule: binade_cases)
  case subnormal
  with assms show ?thesis by simp
next
  case (normal b)
  from normal(1) have "(2 :: rat) powi (b - 1 - 1022) = 2 ^ nat (b - 1) / scale_1022"
    by (intro pow2_scale) simp
  moreover from normal(3) have "2 ^ nat (b - 1) / scale_1022 \<le> \<bar>x\<bar>"
    using scale_1022_pos by (simp add: pos_divide_le_eq)
  moreover have "binade x = b - 1 - 1022" using normal(2) by simp
  ultimately show ?thesis by (simp only:)
qed

lemma binade_eqI:
  assumes lo: "2 powi e \<le> \<bar>x\<bar>" and hi: "\<bar>x\<bar> < 2 powi (e + 1)" and e: "- 1022 \<le> e"
  shows "binade x = e"
proof (rule antisym)
  show "binade x \<le> e"
  proof (rule ccontr)
    assume "\<not> binade x \<le> e"
    then have gt: "e + 1 \<le> binade x" by simp
    with e have "- 1022 < binade x" by simp
    then have "2 powi binade x \<le> \<bar>x\<bar>" by (rule binade_lower)
    moreover from gt have "(2 :: rat) powi (e + 1) \<le> 2 powi binade x"
      by (rule power_int_increasing) simp
    ultimately show False using hi by simp
  qed
  show "e \<le> binade x"
  proof (rule ccontr)
    assume "\<not> e \<le> binade x"
    then have "binade x + 1 \<le> e" by simp
    then have "(2 :: rat) powi (binade x + 1) \<le> 2 powi e"
      by (rule power_int_increasing) simp
    with binade_upper [of x] lo show False by simp
  qed
qed

lemma binade_mono:
  assumes "\<bar>x\<bar> \<le> \<bar>y\<bar>"
  shows "binade x \<le> binade y"
proof (cases "- 1022 < binade x")
  case False
  with binade_ge [of x] binade_ge [of y] show ?thesis by simp
next
  case True
  show ?thesis
  proof (rule ccontr)
    assume "\<not> binade x \<le> binade y"
    then have "binade y + 1 \<le> binade x" by simp
    then have "(2 :: rat) powi (binade y + 1) \<le> 2 powi binade x"
      by (rule power_int_increasing) simp
    with binade_upper [of y] binade_lower [OF True] assms show False by simp
  qed
qed

lemma ulp_pos: "0 < ulp x"
  by (simp add: ulp_def zero_less_power_int)

lemma ulp_minus [simp]: "ulp (- x) = ulp x"
  by (simp add: ulp_def)

lemma pow2_split: "(2 :: rat) powi (e + 1) = 2 ^ 53 * 2 powi (e - 52)"
proof -
  have "(2 :: rat) powi (53 + (e - 52)) = 2 powi 53 * 2 powi (e - 52)"
    by (rule power_int_add) simp
  then show ?thesis by (simp add: add.commute)
qed

lemma pow2_split': "(2 :: rat) powi e = 2 ^ 52 * 2 powi (e - 52)"
proof -
  have "(2 :: rat) powi (52 + (e - 52)) = 2 powi 52 * 2 powi (e - 52)"
    by (rule power_int_add) simp
  then show ?thesis by simp
qed

lemma round_double_minus: "round_double (- x) = - round_double x"
  by (simp add: round_double_def round_half_even_minus)

lemma round_double_zero [simp]: "round_double 0 = 0"
  using round_half_even_of_int [of 0] by (simp add: round_double_def)

lemma round_double_nonneg: "0 \<le> x \<Longrightarrow> 0 \<le> round_double x"
proof -
  assume "0 \<le> x"
  then have "0 \<le> x / ulp x" using ulp_pos [of x] by simp
  then have "round_half_even 0 \<le> round_half_even (x / ulp x)" by (rule round_half_even_mono)
  then have "0 \<le> round_half_even (x / ulp x)" using round_half_even_of_int [of 0] by simp
  then show ?thesis using ulp_pos [of x] by (simp add: round_double_def)
qed

lemma round_double_value:
  assumes "2 powi e \<le> \<bar>x\<bar>" "\<bar>x\<bar> < 2 powi (e + 1)" "- 1022 \<le> e"
    and "\<bar>x / 2 powi (e - 52) - of_int n\<bar> < 1 / 2 \<or>
         (\<bar>x / 2 powi (e - 52) - of_int n\<bar> = 1 / 2 \<and> even n)"
  shows "round_double x = of_int n * 2 powi (e - 52)"
proof -
  have "binade x = e" using assms(1-3) by (rule binade_eqI)
  then have u: "ulp x = 2 powi (e - 52)" by (simp add: ulp_def)
  have "round_half_even (x / 2 powi (e - 52)) = n" using assms(4) by (rule round_half_even_eqI)
  then show ?thesis by (simp add: round_double_def u)
qed

lemma round_double_error: "\<bar>round_double x - x\<bar> \<le> ulp x / 2"
proof -
  have x: "x = x / ulp x * ulp x" using ulp_pos [of x] by simp
  have "round_double x - x = (of_int (round_half_even (x / ulp x)) - x / ulp x) * ulp x"
    unfolding round_double_def by (subst (2) x) (simp only: left_diff_distrib)
  then have "\<bar>round_double x - x\<bar> = \<bar>of_int (round_half_even (x / ulp x)) - x / ulp x\<bar> * ulp x"
    using ulp_pos [of x] by (simp only: abs_mult abs_of_pos)
  also have "\<dots> \<le> 1 / 2 * ulp x"
    using round_half_even_error [of "x / ulp x"] ulp_pos [of x]
    by (intro mult_right_mono) (simp_all add: abs_minus_commute)
  finally show ?thesis by simp
qed

lemma round_double_upper:
  assumes "0 \<le> x"
  shows "round_double x \<le> 2 powi (binade x + 1)"
proof -
  let ?u = "ulp x"
  have split: "(2 :: rat) powi (binade x + 1) = 2 ^ 53 * ?u"
    unfolding ulp_def by (rule pow2_split)
  have "\<bar>x\<bar> < 2 ^ 53 * ?u" using binade_upper [of x] unfolding split .
  with assms have "x < 2 ^ 53 * ?u" by simp
  then have "x / ?u \<le> of_int (2 ^ 53)" using ulp_pos [of x] by (simp add: pos_divide_le_eq)
  then have "round_half_even (x / ?u) \<le> round_half_even (of_int (2 ^ 53))"
    by (rule round_half_even_mono)
  then have "round_half_even (x / ?u) \<le> 2 ^ 53" by (simp only: round_half_even_of_int)
  then have "(of_int (round_half_even (x / ?u)) :: rat) \<le> of_int (2 ^ 53)"
    by (simp only: of_int_le_iff)
  then have "of_int (round_half_even (x / ?u)) * ?u \<le> of_int (2 ^ 53) * ?u"
    using ulp_pos [of x] by (intro mult_right_mono) simp_all
  then show ?thesis unfolding round_double_def split by simp
qed

lemma round_double_lower:
  assumes "0 \<le> x" "- 1022 < binade x"
  shows "2 powi binade x \<le> round_double x"
proof -
  let ?u = "ulp x"
  have split: "(2 :: rat) powi binade x = 2 ^ 52 * ?u"
    unfolding ulp_def by (rule pow2_split')
  have "2 ^ 52 * ?u \<le> \<bar>x\<bar>" using binade_lower [OF assms(2)] unfolding split .
  with assms(1) have "2 ^ 52 * ?u \<le> x" by simp
  then have "of_int (2 ^ 52) \<le> x / ?u" using ulp_pos [of x] by (simp add: pos_le_divide_eq)
  then have "round_half_even (of_int (2 ^ 52)) \<le> round_half_even (x / ?u)"
    by (rule round_half_even_mono)
  then have "2 ^ 52 \<le> round_half_even (x / ?u)" by (simp only: round_half_even_of_int)
  then have "(of_int (2 ^ 52) :: rat) \<le> of_int (round_half_even (x / ?u))"
    by (simp only: of_int_le_iff)
  then have "of_int (2 ^ 52) * ?u \<le> of_int (round_half_even (x / ?u)) * ?u"
    using ulp_pos [of x] by (intro mult_right_mono) simp_all
  then show ?thesis unfolding round_double_def split by simp
qed

lemma round_double_mono_nonneg:
  assumes "0 \<le> x" "x \<le> y"
  shows "round_double x \<le> round_double y"
proof -
  from assms have y0: "0 \<le> y" by simp
  from assms have "binade x \<le> binade y" by (intro binade_mono) simp
  then consider "binade x = binade y" | "binade x < binade y" by linarith
  then show ?thesis
  proof cases
    case 1
    then have u: "ulp y = ulp x" by (simp add: ulp_def)
    from assms(2) have "x / ulp x \<le> y / ulp x" using ulp_pos [of x]
      by (simp add: divide_right_mono)
    then have "round_half_even (x / ulp x) \<le> round_half_even (y / ulp x)"
      by (rule round_half_even_mono)
    then have "(of_int (round_half_even (x / ulp x)) :: rat) \<le> of_int (round_half_even (y / ulp x))"
      by (simp only: of_int_le_iff)
    then show ?thesis unfolding round_double_def u
      using ulp_pos [of x] by (intro mult_right_mono) simp_all
  next
    case 2
    then have "binade x + 1 \<le> binade y" by simp
    then have "(2 :: rat) powi (binade x + 1) \<le> 2 powi binade y"
      by (rule power_int_increasing) simp
    moreover from 2 binade_ge [of x] have "- 1022 < binade y" by simp
    ultimately show ?thesis
      using round_double_upper [OF assms(1)] round_double_lower [OF y0] by linarith
  qed
qed

lemma round_double_mono:
  assumes "x \<le> y"
  shows "round_double x \<le> round_double y"
proof -
  consider "0 \<le> x" | "x < 0" "0 \<le> y" | "y < 0" by linarith
  then show ?thesis
  proof cases
    case 1 then show ?thesis using assms by (rule round_double_mono_nonneg)
  next
    case 2
    then have "0 \<le> round_double (- x)" by (intro round_double_nonneg) simp
    with round_double_nonneg [OF 2(2)] show ?thesis by (simp add: round_double_minus)
  next
    case 3
    with assms have "0 \<le> - y" "- y \<le> - x" by simp_all
    then have "round_double (- y) \<le> round_double (- x)" by (rule round_double_mono_nonneg)
    then show ?thesis by (simp add: round_double_minus)
  qed
qed

lemma binade_pow2: "- 1022 \<le> k \<Longrightarrow> binade (2 powi k) = k"
  by (rule binade_eqI) (simp_all add: power_int_strict_increasing)

lemma round_double_error_bound:
  assumes "\<bar>x\<bar> \<le> 2 powi k" "- 1022 \<le> k"
  shows "\<bar>round_double x - x\<bar> \<le> 2 powi (k - 53)"
proof -
  have "binade x \<le> binade (2 powi k)" using assms(1) by (intro binade_mono) simp
  then have "binade x \<le> k" using assms(2) by (simp add: binade_pow2)
  then have "binade x - 52 \<le> k - 52" by simp
  then have "ulp x \<le> 2 powi (k - 52)" unfolding ulp_def by (rule power_int_increasing) simp
  moreover have "(2 :: rat) powi (k - 52) = 2 * 2 powi (k - 53)"
  proof -
    have "(2 :: rat) powi (1 + (k - 53)) = 2 powi 1 * 2 powi (k - 53)"
      by (rule power_int_add) simp
    then show ?thesis by simp
  qed
  ultimately show ?thesis using round_double_error [of x] by linarith
qed

lemma round_double_of_int:
  assumes "\<bar>n\<bar> < 2 ^ 53"
  shows "round_double (of_int n) = of_int n"
proof (cases "n = 0")
  case True then show ?thesis by simp
next
  case False
  define x :: rat where "x = of_int n"
  define e where "e = binade x"
  have x1: "1 \<le> \<bar>x\<bar>" using False unfolding x_def
    by (metis abs_ge_zero abs_zero of_int_abs of_int_0_eq_iff of_int_le_iff of_int_1 zero_less_abs_iff linorder_not_less int_one_le_iff_zero_less)
  have "binade 1 \<le> binade x" using x1 by (intro binade_mono) simp
  moreover have "binade 1 = 0" by (rule binade_eqI) simp_all
  ultimately have e0: "0 \<le> e" unfolding e_def by simp
  have e52: "e \<le> 52"
  proof (rule ccontr)
    assume "\<not> e \<le> 52"
    then have e53: "53 \<le> e" by simp
    then have "- 1022 < binade x" unfolding e_def by simp
    then have "2 powi e \<le> \<bar>x\<bar>" unfolding e_def by (rule binade_lower)
    moreover have "(2 :: rat) powi 53 \<le> 2 powi e" using e53 by (rule power_int_increasing) simp
    moreover have "\<bar>x\<bar> < 2 powi 53"
    proof -
      have "(of_int \<bar>n\<bar> :: rat) < of_int (2 ^ 53)" using assms by (simp only: of_int_less_iff)
      then show ?thesis unfolding x_def by simp
    qed
    ultimately show False by simp
  qed
  define k where "k = nat (52 - e)"
  have u: "ulp x = 1 / 2 ^ k"
  proof -
    have "e - 52 = - int k" unfolding k_def using e52 by simp
    then show ?thesis unfolding ulp_def e_def [symmetric]
      by (simp add: power_int_minus divide_inverse)
  qed
  have "x / ulp x = x * 2 ^ k" by (simp add: u)
  also have "\<dots> = of_int (n * 2 ^ k)" unfolding x_def by simp
  finally have "x / ulp x = of_int (n * 2 ^ k)" .
  then have "round_half_even (x / ulp x) = n * 2 ^ k" by (simp only: round_half_even_of_int)
  then have "round_double x = of_int (n * 2 ^ k) * (1 / 2 ^ k)"
    unfolding round_double_def u by simp
  then show ?thesis unfolding x_def by simp
qed

lemma round_double_numeral [simp]:
  "numeral k < (2 ^ 53 :: int) \<Longrightarrow> round_double (numeral k) = numeral k"
  using round_double_of_int [of "numeral k"] by simp

lemma round_double_neg_numeral [simp]:
  "numeral k < (2 ^ 53 :: int) \<Longrightarrow> round_double (- numeral k) = - numeral k"
  using round_double_of_int [of "- numeral k"] by simp

lemma round_double_one [simp]: "round_double 1 = 1"
  using round_double_of_int [of 1] by simp

lemma round_double_abs: "\<bar>round_double x\<bar> = round_double \<bar>x\<bar>"
proof (cases "0 \<le> x")
  case True
  then show ?thesis using round_double_nonneg [of x] by simp
next
  case False
  then have "0 \<le> round_double (- x)" by (intro round_double_nonneg) simp
  with False show ?thesis by (simp add: round_double_minus abs_if)
qed

lemma round_double_gt_2_iff: "2 < round_double y \<longleftrightarrow> 2 + 1 / 2 ^ 52 < y"
proof
  assume "2 < round_double y"
  show "2 + 1 / 2 ^ 52 < y"
  proof (rule ccontr)
    assume "\<not> 2 + 1 / 2 ^ 52 < y"
    then have "y \<le> 2 + 1 / 2 ^ 52" by simp
    then have "round_double y \<le> round_double (2 + 1 / 2 ^ 52)" by (rule round_double_mono)
    also have "round_double (2 + 1 / 2 ^ 52) = 2"
      by (rule round_double_value [where e = 1 and n = "2 ^ 52", THEN trans]) simp_all
    finally show False using \<open>2 < round_double y\<close> by simp
  qed
next
  assume y: "2 + 1 / 2 ^ 52 < y"
  show "2 < round_double y"
  proof (cases "y < 4")
    case False
    then have "round_double 4 \<le> round_double y" by (intro round_double_mono) simp
    then show ?thesis by simp
  next
    case True
    have b: "binade y = 1" using y True by (intro binade_eqI) simp_all
    then have u: "ulp y = 1 / 2 ^ 51" by (simp add: ulp_def)
    let ?r = "round_half_even (y / ulp y)"
    have z: "(2 ^ 52 :: rat) + 1 / 2 < y / ulp y" using y unfolding u by simp
    have "y / ulp y - of_int ?r \<le> 1 / 2"
      using round_half_even_error [of "y / ulp y"] by (simp only: abs_le_iff)
    with z have "(2 ^ 52 :: rat) < of_int ?r" by linarith
    then have "(of_int (2 ^ 52) :: rat) < of_int ?r" by simp
    then have "2 ^ 52 < ?r" by (simp only: of_int_less_iff)
    then have "2 ^ 52 + 1 \<le> ?r" by simp
    then have "(of_int (2 ^ 52 + 1) :: rat) \<le> of_int ?r" by (simp only: of_int_le_iff)
    then have "of_int (2 ^ 52 + 1) * (1 / 2 ^ 51) \<le> of_int ?r * (1 / 2 ^ 51 :: rat)"
      by (intro mult_right_mono) simp_all
    then show ?thesis unfolding round_double_def u by simp
  qed
qed

section \<open>Facts about the builtins\<close>

lemma fold_max_py:
  "fold (\<lambda>item m. if item > m then item else m) xs (x::rat) = Max (set (x # xs))"
proof -
  have "(\<lambda>item m. if item > m then item else m) = (max :: rat \<Rightarrow> rat \<Rightarrow> rat)"
    by (auto simp: fun_eq_iff max_def)
  then show ?thesis by (simp only: Max.set_eq_fold)
qed

lemma fold_min_py:
  "fold (\<lambda>item m. if item < m then item else m) xs (x::rat) = Min (set (x # xs))"
proof -
  have "(\<lambda>item m. if item < m then item else m) = (min :: rat \<Rightarrow> rat \<Rightarrow> rat)"
    by (auto simp: fun_eq_iff min_def)
  then show ?thesis by (simp only: Min.set_eq_fold)
qed

lemma max_py_Max: "xs \<noteq> [] \<Longrightarrow> max_py xs = Inr (Max (set xs))"
proof (cases xs)
  case (Cons x ys)
  then show ?thesis by (simp only: max_py.simps fold_max_py)
qed simp

lemma min_py_Min: "xs \<noteq> [] \<Longrightarrow> min_py xs = Inr (Min (set xs))"
proof (cases xs)
  case (Cons x ys)
  then show ?thesis by (simp only: min_py.simps fold_min_py)
qed simp

lemma index_py_first:
  "v \<in> f ` set w \<Longrightarrow> index_py (map f w) v = Inr (length (takeWhile (\<lambda>s. f s \<noteq> v) w))"
  by (induction w) auto

lemma nth_first:
  "v \<in> f ` set w \<Longrightarrow>
   length (takeWhile (\<lambda>s. f s \<noteq> v) w) < length w \<and>
   w ! length (takeWhile (\<lambda>s. f s \<noteq> v) w) = hd (filter (\<lambda>s. f s = v) w)"
  by (induction w) auto

lemma getitem_in_range: "i < length xs \<Longrightarrow> getitem xs i = Inr (xs ! i)"
  by (simp add: getitem_def)

lemma getitem_first:
  "v \<in> f ` set w \<Longrightarrow>
   getitem (map g w) (length (takeWhile (\<lambda>s. f s \<noteq> v) w)) =
     Inr (g (hd (filter (\<lambda>s. f s = v) w)))"
  using nth_first [of v f w] by (simp add: getitem_def)

lemma loc_first:
  "v \<in> f ` set w \<Longrightarrow>
   loc (map g w) (length (takeWhile (\<lambda>s. f s \<noteq> v) w)) =
     Inr (g (hd (filter (\<lambda>s. f s = v) w)))"
  using nth_first [of v f w] by (simp add: loc_def)

lemma idxmax_first:
  assumes "w \<noteq> []"
  shows "idxmax (map f w) = Inr (length (takeWhile (\<lambda>s. f s \<noteq> Max (f ` set w)) w))"
proof -
  from assms have "Max (f ` set w) \<in> f ` set w" by (intro Max_in) simp_all
  then show ?thesis using assms by (simp add: idxmax_def max_py_Max index_py_first)
qed

lemma idxmin_first:
  assumes "w \<noteq> []"
  shows "idxmin (map f w) = Inr (length (takeWhile (\<lambda>s. f s \<noteq> Min (f ` set w)) w))"
proof -
  from assms have "Min (f ` set w) \<in> f ` set w" by (intro Min_in) simp_all
  then show ?thesis using assms by (simp add: idxmin_def min_py_Min index_py_first)
qed

section \<open>The loops on a window\<close>

lemma map_nth_upt: "map (\<lambda>i. f (w ! i)) [0..<length w] = map f w"
  by (rule nth_equalityI) simp_all

lemma print_records_in_range:
  "\<forall>i \<in> set idx. i < length dates \<and> i < length max_temps \<and> i < length min_temps \<Longrightarrow>
   print_records dates max_temps min_temps idx =
     Inr (map (\<lambda>i. (dates ! i, max_temps ! i, min_temps ! i)) idx)"
  by (induction idx) (simp_all add: getitem_in_range)

lemma print_records_window:
  "print_records (map date w) (map max_temp w) (map min_temp w) [0..<length w] =
     Inr (map (\<lambda>s. (date s, max_temp s, min_temp s)) w)"
proof -
  have "print_records (map date w) (map max_temp w) (map min_temp w) [0..<length w] =
     Inr (map (\<lambda>i. (map date w ! i, map max_temp w ! i, map min_temp w ! i)) [0..<length w])"
    by (rule print_records_in_range) simp
  also have "map (\<lambda>i. (map date w ! i, map max_temp w ! i, map min_temp w ! i)) [0..<length w]
           = map (\<lambda>s. (date s, max_temp s, min_temp s)) w"
    by (rule nth_equalityI) simp_all
  finally show ?thesis .
qed

lemma spot_anomalies_in_range:
  "\<forall>i \<in> set idx. i < length w \<Longrightarrow>
   spot_anomalies threshold avg_max avg_min (map date w) (map max_temp w) (map min_temp w)
     idx found =
     Inr (found \<or> concat (map (\<lambda>i. anomaly_lines threshold avg_max avg_min (w ! i)) idx) \<noteq> [],
          concat (map (\<lambda>i. anomaly_lines threshold avg_max avg_min (w ! i)) idx))"
  by (induction idx arbitrary: found) (auto simp add: getitem_in_range anomaly_lines_def)

lemma spot_anomalies_window:
  "spot_anomalies threshold avg_max avg_min (map date w) (map max_temp w) (map min_temp w)
     [0..<length w] False =
     Inr (concat (map (anomaly_lines threshold avg_max avg_min) w) \<noteq> [],
          concat (map (anomaly_lines threshold avg_max avg_min) w))"
  using spot_anomalies_in_range [of "[0..<length w]" w threshold avg_max avg_min False]
  by (simp add: map_nth_upt)

lemma spot_unusual_days_in_range:
  "\<forall>i \<in> set idx. i < length w \<Longrightarrow>
   spot_unusual_days normal_max normal_min threshold (map date w) (map max_temp w)
     (map min_temp w) idx found =
     Inr (found \<or>
          concat (map (\<lambda>i. unusual_lines normal_max normal_min threshold (w ! i)) idx) \<noteq> [],
          concat (map (\<lambda>i. unusual_lines normal_max normal_min threshold (w ! i)) idx))"
  by (induction idx arbitrary: found) (auto simp add: getitem_in_range unusual_lines_def)

lemma spot_unusual_days_window:
  "spot_unusual_days normal_max normal_min threshold (map date w) (map max_temp w)
     (map min_temp w) [0..<length w] False =
     Inr (concat (map (unusual_lines normal_max normal_min threshold) w) \<noteq> [],
          concat (map (unusual_lines normal_max normal_min threshold) w))"
  using spot_unusual_days_in_range [of "[0..<length w]" w normal_max normal_min threshold False]
  by (simp add: map_nth_upt)

section \<open>What each script returns on a window\<close>

lemma dag_day_1_run:
  assumes "w \<noteq> []"
  shows "dag_day_1_analyze_weather_data threshold (to_weather_data w) =
    Inr \<lparr>records = map (\<lambda>s. (date s, max_temp s, min_temp s)) w,
         highest_temp = Max (max_temp ` set w),
         lowest_temp = Min (min_temp ` set w),
         date_of_highest = date (hd (filter (\<lambda>s. max_temp s = Max (max_temp ` set w)) w)),
         date_of_lowest = date (hd (filter (\<lambda>s. min_temp s = Min (min_temp ` set w)) w)),
         avg_max_temp = round_double (window_mean max_temp w),
         avg_min_temp = round_double (window_mean min_temp w),
         anomalies = concat (map (anomaly_lines threshold
                        (round_double (window_mean max_temp w))
                        (round_double (window_mean min_temp w))) w),
         anomalies_found = (concat (map (anomaly_lines threshold
                        (round_double (window_mean max_temp w))
                        (round_double (window_mean min_temp w))) w) \<noteq> [])\<rparr>"
proof -
  have mx: "Max (max_temp ` set w) \<in> max_temp ` set w"
    using assms by (intro Max_in) simp_all
  have mn: "Min (min_temp ` set w) \<in> min_temp ` set w"
    using assms by (intro Min_in) simp_all
  show ?thesis
    using assms
    by (simp add: dag_day_1_analyze_weather_data_def to_weather_data_def
        print_records_window max_py_Max min_py_Min
        index_py_first [OF mx] getitem_first [OF mx]
        index_py_first [OF mn] getitem_first [OF mn]
        mean_def spot_anomalies_window Let_def window_mean_def)
qed

lemma weather_run:
  assumes "w \<noteq> []"
  shows "weather_analyze_weather_data normal_max normal_min threshold (to_weather_data w) =
    Inr \<lparr>records = map (\<lambda>s. (date s, max_temp s, min_temp s)) w,
         highest_temp = Max (max_temp ` set w),
         lowest_temp = Min (min_temp ` set w),
         date_of_highest = date (hd (filter (\<lambda>s. max_temp s = Max (max_temp ` set w)) w)),
         date_of_lowest = date (hd (filter (\<lambda>s. min_temp s = Min (min_temp ` set w)) w)),
         unusual_days = concat (map (unusual_lines normal_max normal_min threshold) w),
         unusual_found =
           (concat (map (unusual_lines normal_max normal_min threshold) w) \<noteq> [])\<rparr>"
proof -
  have mx: "Max (max_temp ` set w) \<in> max_temp ` set w"
    using assms by (intro Max_in) simp_all
  have mn: "Min (min_temp ` set w) \<in> min_temp ` set w"
    using assms by (intro Min_in) simp_all
  show ?thesis
    using assms
    by (simp add: weather_analyze_weather_data_def to_weather_data_def
        print_records_window max_py_Max min_py_Min
        index_py_first [OF mx] getitem_first [OF mx]
        index_py_first [OF mn] getitem_first [OF mn]
        spot_unusual_days_window Let_def)
qed

lemma dag_day_1_empty:
  "dag_day_1_analyze_weather_data threshold (to_weather_data []) = Inl ValueError"
  by (simp add: dag_day_1_analyze_weather_data_def to_weather_data_def)

lemma weather_empty:
  "weather_analyze_weather_data normal_max normal_min threshold (to_weather_data []) =
     Inl ValueError"
  by (simp add: weather_analyze_weather_data_def to_weather_data_def)

lemma dag_1_run:
  assumes "rows df \<noteq> []"
  shows "dag_1_analyze_weather_data (Some df) =
    (Some (df\<lparr>added := AList.update ''deviation_from_avg'' (deviations (rows df))
                          (AList.update ''temp_fluctuation'' (fluctuations (rows df))
                             (added df))\<rparr>),
     Inr \<lparr>printed_table = df,
          highest_temp_record =
            hd (filter (\<lambda>r. max_temp_celsius r = Max (max_temp_celsius ` set (rows df)))
                  (rows df)),
          lowest_temp_record =
            hd (filter (\<lambda>r. min_temp_celsius r = Min (min_temp_celsius ` set (rows df)))
                  (rows df)),
          max_fluctuation =
            Max ((\<lambda>r. round_double (max_temp_celsius r - min_temp_celsius r)) ` set (rows df)),
          date_of_anomaly =
            date_ts (hd (filter (\<lambda>r. round_double (max_temp_celsius r - min_temp_celsius r) =
                           Max ((\<lambda>r. round_double (max_temp_celsius r - min_temp_celsius r))
                                  ` set (rows df)))
                         (rows df))),
          pd_avg_max_temp = series_mean (map max_temp_celsius (rows df)),
          significant_deviations =
            map (deviation_line_of (series_mean (map max_temp_celsius (rows df))))
              (filter (\<lambda>r. \<bar>round_double (max_temp_celsius r -
                                series_mean (map max_temp_celsius (rows df)))\<bar> > 2)
                 (rows df))\<rparr>)"
proof -
  let ?rs = "rows df"
  let ?fl = "\<lambda>r::'a row. round_double (max_temp_celsius r - min_temp_celsius r)"
  have mx: "Max (max_temp_celsius ` set ?rs) \<in> max_temp_celsius ` set ?rs"
    using assms by (intro Max_in) simp_all
  have mn: "Min (min_temp_celsius ` set ?rs) \<in> min_temp_celsius ` set ?rs"
    using assms by (intro Min_in) simp_all
  have fl: "Max (?fl ` set ?rs) \<in> ?fl ` set ?rs"
    using assms by (intro Max_in) simp_all
  have hi: "bind_res (idxmax (map max_temp_celsius ?rs)) (loc ?rs) =
      Inr (hd (filter (\<lambda>r. max_temp_celsius r = Max (max_temp_celsius ` set ?rs)) ?rs))"
    using assms loc_first [OF mx, of "\<lambda>r. r"] by (simp add: idxmax_first)
  have lo: "bind_res (idxmin (map min_temp_celsius ?rs)) (loc ?rs) =
      Inr (hd (filter (\<lambda>r. min_temp_celsius r = Min (min_temp_celsius ` set ?rs)) ?rs))"
    using assms loc_first [OF mn, of "\<lambda>r. r"] by (simp add: idxmin_first)
  have zipmap: "\<And>g. zip ?rs (map g ?rs) = map (\<lambda>r. (r, g r)) ?rs"
    by (simp add: zip_map2 zip_same_conv_map)
  have an: "bind_res (idxmax (map ?fl ?rs))
              (\<lambda>k. bind_res (loc (map (\<lambda>r. (r, ?fl r)) ?rs) k) Inr) =
      Inr (hd (filter (\<lambda>r. ?fl r = Max (?fl ` set ?rs)) ?rs),
           ?fl (hd (filter (\<lambda>r. ?fl r = Max (?fl ` set ?rs)) ?rs)))"
    using assms loc_first [OF fl, of "\<lambda>r. (r, ?fl r)"] by (simp add: idxmax_first)
  have hdfl: "?fl (hd (filter (\<lambda>r. ?fl r = Max (?fl ` set ?rs)) ?rs)) = Max (?fl ` set ?rs)"
  proof -
    from fl have "filter (\<lambda>r. ?fl r = Max (?fl ` set ?rs)) ?rs \<noteq> []"
      by (auto simp: filter_empty_conv)
    then have "hd (filter (\<lambda>r. ?fl r = Max (?fl ` set ?rs)) ?rs)
        \<in> set (filter (\<lambda>r. ?fl r = Max (?fl ` set ?rs)) ?rs)"
      by (rule hd_in_set)
    then show ?thesis by simp
  qed
  show ?thesis
    using assms
    by (simp add: dag_1_analyze_weather_data_def hi lo setitem_def getcol_def
        update_conv' an hdfl Let_def zipmap filter_map o_def deviations_def fluctuations_def
        deviation_line_of_def)
qed

section \<open>Facts about first occurrences, report readers and means\<close>

lemma find_hd_filter: "\<exists>s \<in> set w. P s \<Longrightarrow> find P w = Some (hd (filter P w))"
  by (induction w) auto

lemma hd_filter_sat: "\<exists>s \<in> set w. P s \<Longrightarrow> P (hd (filter P w))"
  by (induction w) auto

lemma hd_filter_earliest:
  fixes w :: "('d::linorder) daily_sample list"
  shows "sorted_wrt (<) (map date w) \<Longrightarrow> s \<in> set w \<Longrightarrow> P s \<Longrightarrow>
    date (hd (filter P w)) \<le> date s"
  by (induction w) (auto simp: less_imp_le)

lemma ex_Max: "w \<noteq> [] \<Longrightarrow> \<exists>s \<in> set w. (f s :: rat) = Max (f ` set w)"
proof -
  assume "w \<noteq> []"
  then have "Max (f ` set w) \<in> f ` set w" by (intro Max_in) simp_all
  then show ?thesis by auto
qed

lemma ex_Min: "w \<noteq> [] \<Longrightarrow> \<exists>s \<in> set w. (f s :: rat) = Min (f ` set w)"
proof -
  assume "w \<noteq> []"
  then have "Min (f ` set w) \<in> f ` set w" by (intro Min_in) simp_all
  then show ?thesis by auto
qed


lemma earliest_with_first:
  assumes "v \<in> f ` set w"
  shows "earliest_with w f v (date (hd (filter (\<lambda>s. f s = v) w)))"
proof -
  from assms have ex: "\<exists>s \<in> set w. f s = v" by auto
  show ?thesis
    unfolding earliest_with_def
    using find_hd_filter [OF ex] hd_filter_earliest [of w _ "\<lambda>s. f s = v"] by simp
qed

lemma earliest_with_Max:
  "w \<noteq> [] \<Longrightarrow> earliest_with w f (Max (f ` set w)) (date (hd (filter (\<lambda>s. f s = Max (f ` set w)) w)))"
  by (rule earliest_with_first, rule Max_in) simp_all

lemma earliest_with_Min:
  "w \<noteq> [] \<Longrightarrow> earliest_with w f (Min (f ` set w)) (date (hd (filter (\<lambda>s. f s = Min (f ` set w)) w)))"
  by (rule earliest_with_first, rule Min_in) simp_all









lemma sum_list_le_Max:
  "xs \<noteq> [] \<Longrightarrow> sum_list xs \<le> of_nat (length xs) * Max (set (xs :: rat list))"
proof (induction xs rule: list_nonempty_induct)
  case (single x) then show ?case by simp
next
  case (cons x xs)
  have "Max (set xs) \<le> Max (set (x # xs))" using cons.hyps by (intro Max_mono) auto
  then have "of_nat (length xs) * Max (set xs) \<le> of_nat (length xs) * Max (set (x # xs))"
    by (intro mult_left_mono) simp_all
  moreover have "x \<le> Max (set (x # xs))" by (intro Max_ge) simp_all
  ultimately show ?case using cons.IH by (simp add: algebra_simps del: Max_insert set_simps)
qed

lemma sum_list_ge_Min:
  "xs \<noteq> [] \<Longrightarrow> of_nat (length xs) * Min (set (xs :: rat list)) \<le> sum_list xs"
proof (induction xs rule: list_nonempty_induct)
  case (single x) then show ?case by simp
next
  case (cons x xs)
  have "Min (set (x # xs)) \<le> Min (set xs)" using cons.hyps by (intro Min_antimono) auto
  then have "of_nat (length xs) * Min (set (x # xs)) \<le> of_nat (length xs) * Min (set xs)"
    by (intro mult_left_mono) simp_all
  moreover have "Min (set (x # xs)) \<le> x" by (intro Min_le) simp_all
  ultimately show ?case using cons.IH by (simp add: algebra_simps del: Min_insert set_simps)
qed

lemma window_mean_le_Max: "w \<noteq> [] \<Longrightarrow> window_mean f w \<le> Max (f ` set w)"
  using sum_list_le_Max [of "map f w"]
  by (simp add: window_mean_def divide_le_eq mult.commute)

lemma window_mean_ge_Min: "w \<noteq> [] \<Longrightarrow> Min (f ` set w) \<le> window_mean f w"
  using sum_list_ge_Min [of "map f w"]
  by (simp add: window_mean_def le_divide_eq mult.commute)

lemma dag_1_window:
  assumes "w \<noteq> []"
  shows "dag_1_analyze_weather_data (to_dataframe w) =
    (Some \<lparr>rows = map to_row w,
           added = [(''temp_fluctuation'', map (\<lambda>s. round_double (max_temp s - min_temp s)) w),
                    (''deviation_from_avg'',
                     map (\<lambda>s. \<bar>round_double (max_temp s - series_mean (map max_temp w))\<bar>)
                       w)]\<rparr>,
     Inr \<lparr>printed_table = \<lparr>rows = map to_row w, added = []\<rparr>,
          highest_temp_record =
            to_row (hd (filter (\<lambda>s. max_temp s = Max (max_temp ` set w)) w)),
          lowest_temp_record =
            to_row (hd (filter (\<lambda>s. min_temp s = Min (min_temp ` set w)) w)),
          max_fluctuation = Max ((\<lambda>s. round_double (max_temp s - min_temp s)) ` set w),
          date_of_anomaly =
            date (hd (filter (\<lambda>s. round_double (max_temp s - min_temp s) =
                                 Max ((\<lambda>s. round_double (max_temp s - min_temp s)) ` set w)) w)),
          pd_avg_max_temp = series_mean (map max_temp w),
          significant_deviations =
            map (\<lambda>s. deviation_line_of (series_mean (map max_temp w)) (to_row s))
              (filter (\<lambda>s. \<bar>round_double (max_temp s - series_mean (map max_temp w))\<bar> > 2)
                 w)\<rparr>)"
proof -
  have hdmap: "\<And>P. \<exists>s \<in> set w. P s \<Longrightarrow> hd (map to_row (filter P w)) = to_row (hd (filter P w))"
    by (rule hd_map) (auto simp: filter_empty_conv)
  have mx: "\<exists>s \<in> set w. max_temp s = Max (max_temp ` set w)"
    using assms by (rule ex_Max)
  have mn: "\<exists>s \<in> set w. min_temp s = Min (min_temp ` set w)"
    using assms by (rule ex_Min)
  have fl: "\<exists>s \<in> set w. round_double (max_temp s - min_temp s) =
      Max ((\<lambda>s. round_double (max_temp s - min_temp s)) ` set w)"
    using assms by (rule ex_Max)
  have sel: "max_temp_celsius \<circ> to_row = max_temp" "min_temp_celsius \<circ> to_row = min_temp"
    "date_ts \<circ> to_row = date"
    by (simp_all add: fun_eq_iff to_row_def)
  have sel': "\<And>s. max_temp_celsius (to_row s) = max_temp s"
    "\<And>s. min_temp_celsius (to_row s) = min_temp s" "\<And>s. date_ts (to_row s) = date s"
    by (simp_all add: to_row_def)
  show ?thesis
    using assms
    by (simp add: to_dataframe_def dag_1_run filter_map o_def image_image sel'
        hdmap [OF mx] hdmap [OF mn] hdmap [OF fl] deviations_def fluctuations_def)
qed

lemma added_columns_idem:
  "AList.update ''deviation_from_avg'' D
     (AList.update ''temp_fluctuation'' F
        (AList.update ''deviation_from_avg'' D (AList.update ''temp_fluctuation'' F al))) =
   AList.update ''deviation_from_avg'' D (AList.update ''temp_fluctuation'' F al)"
proof -
  let ?U = "AList.update ''deviation_from_avg'' D (AList.update ''temp_fluctuation'' F al)"
  have "map_of ?U ''temp_fluctuation'' = Some F" by (simp add: update_conv')
  then have 1: "AList.update ''temp_fluctuation'' F ?U = ?U" by (rule update_triv)
  have "map_of ?U ''deviation_from_avg'' = Some D" by (simp add: update_conv')
  then have 2: "AList.update ''deviation_from_avg'' D ?U = ?U" by (rule update_triv)
  show ?thesis by (simp only: 1 2)
qed

section \<open>The claims\<close>

text \<open>
  Claim C1. For every non-empty window each of the three scripts returns a report; the
  highest temperature it reports is the maximum of the \<open>max_temp\<close> values of the window and
  the lowest temperature it reports is the minimum of the \<open>min_temp\<close> values.
\<close>

theorem extremes_are_max_and_min:
  assumes "w \<noteq> []"
  shows "(\<exists>r. dag_day_1_analyze_weather_data threshold (to_weather_data w) = Inr r \<and>
              highest_temp r = Max (max_temp ` set w) \<and>
              lowest_temp r = Min (min_temp ` set w)) \<and>
         (\<exists>r. weather_analyze_weather_data normal_max normal_min delta (to_weather_data w)
                = Inr r \<and>
              highest_temp r = Max (max_temp ` set w) \<and>
              lowest_temp r = Min (min_temp ` set w)) \<and>
         (\<exists>r. snd (dag_1_analyze_weather_data (to_dataframe w)) = Inr r \<and>
              max_temp_celsius (highest_temp_record r) = Max (max_temp ` set w) \<and>
              min_temp_celsius (lowest_temp_record r) = Min (min_temp ` set w))"
proof -
  have hi: "max_temp (hd (filter (\<lambda>s. max_temp s = Max (max_temp ` set w)) w))
              = Max (max_temp ` set w)"
    using hd_filter_sat [of w "\<lambda>s. max_temp s = Max (max_temp ` set w)"]
      ex_Max [OF assms, of max_temp] by simp
  have lo: "min_temp (hd (filter (\<lambda>s. min_temp s = Min (min_temp ` set w)) w))
              = Min (min_temp ` set w)"
    using hd_filter_sat [of w "\<lambda>s. min_temp s = Min (min_temp ` set w)"]
      ex_Min [OF assms, of min_temp] by simp
  show ?thesis
    using assms hi lo
    by (simp add: dag_day_1_run weather_run dag_1_window to_row_def)
qed

text \<open>Claim C1 on the example window: the extremes are 35 and 18 in all three scripts.\<close>

theorem extremes_are_max_and_min_witness:
  "example_window \<noteq> [] \<and>
   (\<exists>r. dag_day_1_analyze_weather_data ANOMALY_THRESHOLD_DEGREES (to_weather_data example_window)
          = Inr r \<and> highest_temp r = 35 \<and> lowest_temp r = 18) \<and>
   (\<exists>r. weather_analyze_weather_data NORMAL_MAX_TEMP_HYD NORMAL_MIN_TEMP_HYD
          weather_ANOMALY_THRESHOLD_DEGREES (to_weather_data example_window) = Inr r \<and>
        highest_temp r = 35 \<and> lowest_temp r = 18) \<and>
   (\<exists>r. snd (dag_1_analyze_weather_data (to_dataframe example_window)) = Inr r \<and>
        max_temp_celsius (highest_temp_record r) = 35 \<and>
        min_temp_celsius (lowest_temp_record r) = 18)"
proof -
  have ne: "example_window \<noteq> []" by (simp add: example_window_def)
  have mx: "Max (max_temp ` set example_window) = 35" by (simp add: example_window_def)
  have mn: "Min (min_temp ` set example_window) = 18" by (simp add: example_window_def)
  show ?thesis
    using ne extremes_are_max_and_min [OF ne, where threshold = ANOMALY_THRESHOLD_DEGREES
        and normal_max = NORMAL_MAX_TEMP_HYD and normal_min = NORMAL_MIN_TEMP_HYD
        and delta = weather_ANOMALY_THRESHOLD_DEGREES]
    unfolding mx mn by simp
qed

text \<open>
  Claim C8. On the three day example window with threshold 2 the function of
  \<^verbatim>\<open>dag_day_1.py\<close> reports day 2 as the highest (35) and as the lowest (18), the means 31 and
  20, one hot anomaly (day 2, since 35 exceeds 33) and no cold anomaly (18 is not below 18).
\<close>

theorem worked_example:
  "dag_day_1_analyze_weather_data 2 (to_weather_data example_window) =
     Inr \<lparr>records = [(''2024-01-01'', 30, 20), (''2024-01-02'', 35, 18), (''2024-01-03'', 28, 22)],
          highest_temp = 35, lowest_temp = 18,
          date_of_highest = ''2024-01-02'', date_of_lowest = ''2024-01-02'',
          avg_max_temp = 31, avg_min_temp = 20,
          anomalies = [HotAnomaly ''2024-01-02'' 35], anomalies_found = True\<rparr> \<and>
   hot_anomalies [HotAnomaly ''2024-01-02'' 35] = [(''2024-01-02'', 35)] \<and>
   cold_anomalies [HotAnomaly ''2024-01-02'' (35::rat)] = ([] :: (string \<times> rat) list)"
proof -
  have r31: "round_double 31 = 31"
    by (rule round_double_value [where e = 4 and n = 8725724278030336, THEN trans]) simp_all
  have r20: "round_double 20 = 20"
    by (rule round_double_value [where e = 4 and n = 5629499534213120, THEN trans]) simp_all
  have r33: "round_double 33 = 33"
    by (rule round_double_value [where e = 5 and n = 4644337115725824, THEN trans]) simp_all
  have r18: "round_double 18 = 18"
    by (rule round_double_value [where e = 4 and n = 5066549580791808, THEN trans]) simp_all
  show ?thesis
    by (simp add: dag_day_1_analyze_weather_data_def to_weather_data_def example_window_def
        getitem_def mean_def upt_rec Let_def r31 r20 r33 r18)
qed



text \<open>
  Claim C5. For every non-empty window each script reports the maximum of the \<open>max_temp\<close>
  values and the minimum of the \<open>min_temp\<close> values, and the date it reports with each is the date
  of the first sample of the window that attains that extreme. When the window is in
  chronological order no sample attaining the extreme has an earlier date.
\<close>

theorem ties_resolve_to_earliest:
  fixes w :: "('d::linorder) daily_sample list"
  assumes "w \<noteq> []"
  shows "(\<exists>r. dag_day_1_analyze_weather_data threshold (to_weather_data w) = Inr r \<and>
              highest_temp r = Max (max_temp ` set w) \<and>
              lowest_temp r = Min (min_temp ` set w) \<and>
              earliest_with w max_temp (Max (max_temp ` set w)) (date_of_highest r) \<and>
              earliest_with w min_temp (Min (min_temp ` set w)) (date_of_lowest r)) \<and>
         (\<exists>r. weather_analyze_weather_data normal_max normal_min delta (to_weather_data w)
                = Inr r \<and>
              highest_temp r = Max (max_temp ` set w) \<and>
              lowest_temp r = Min (min_temp ` set w) \<and>
              earliest_with w max_temp (Max (max_temp ` set w)) (date_of_highest r) \<and>
              earliest_with w min_temp (Min (min_temp ` set w)) (date_of_lowest r)) \<and>
         (\<exists>r. snd (dag_1_analyze_weather_data (to_dataframe w)) = Inr r \<and>
              max_temp_celsius (highest_temp_record r) = Max (max_temp ` set w) \<and>
              min_temp_celsius (lowest_temp_record r) = Min (min_temp ` set w) \<and>
              earliest_with w max_temp (Max (max_temp ` set w))
                (date_ts (highest_temp_record r)) \<and>
              earliest_with w min_temp (Min (min_temp ` set w))
                (date_ts (lowest_temp_record r)))"
proof -
  have hi: "max_temp (hd (filter (\<lambda>s. max_temp s = Max (max_temp ` set w)) w))
              = Max (max_temp ` set w)"
    using hd_filter_sat [of w "\<lambda>s. max_temp s = Max (max_temp ` set w)"]
      ex_Max [OF assms, of max_temp] by simp
  have lo: "min_temp (hd (filter (\<lambda>s. min_temp s = Min (min_temp ` set w)) w))
              = Min (min_temp ` set w)"
    using hd_filter_sat [of w "\<lambda>s. min_temp s = Min (min_temp ` set w)"]
      ex_Min [OF assms, of min_temp] by simp
  show ?thesis
    using assms hi lo earliest_with_Max [OF assms, of max_temp]
      earliest_with_Min [OF assms, of min_temp]
    by (simp add: dag_day_1_run weather_run dag_1_window to_row_def)
qed

text \<open>
  Claim C5 on a chronological window whose second and third day tie on both extremes: the
  second day is reported, not the first day and not the third.
\<close>

theorem ties_resolve_to_earliest_witness:
  "tied_window \<noteq> [] \<and> sorted_wrt (<) (map date tied_window) \<and>
   (\<exists>r. dag_day_1_analyze_weather_data ANOMALY_THRESHOLD_DEGREES (to_weather_data tied_window)
          = Inr r \<and>
        highest_temp r = 35 \<and> date_of_highest r = ''2024-01-02'' \<and>
        lowest_temp r = 18 \<and> date_of_lowest r = ''2024-01-02'' \<and>
        map_option date (find (\<lambda>s. max_temp s = 35) tied_window) = Some ''2024-01-02'' \<and>
        map_option date (find (\<lambda>s. min_temp s = 18) tied_window) = Some ''2024-01-02'' \<and>
        (\<forall>s \<in> set tied_window. max_temp s = 35 \<longrightarrow> ''2024-01-02'' \<le> date s) \<and>
        (\<forall>s \<in> set tied_window. min_temp s = 18 \<longrightarrow> ''2024-01-02'' \<le> date s))"
proof -
  have ne: "tied_window \<noteq> []" by (simp add: tied_window_def)
  have chrono: "sorted_wrt (<) (map date tied_window)" by (simp add: tied_window_def)
  have mx: "Max (max_temp ` set tied_window) = 35" by (simp add: tied_window_def)
  have mn: "Min (min_temp ` set tied_window) = 18" by (simp add: tied_window_def)
  have d2: "hd (filter (\<lambda>s. max_temp s = 35) tied_window) =
              \<lparr>date = ''2024-01-02'', max_temp = 35, min_temp = 18\<rparr>"
    "hd (filter (\<lambda>s. min_temp s = 18) tied_window) =
              \<lparr>date = ''2024-01-02'', max_temp = 35, min_temp = 18\<rparr>"
    by (simp_all add: tied_window_def)
  have run: "date_of_highest (projr (dag_day_1_analyze_weather_data ANOMALY_THRESHOLD_DEGREES
        (to_weather_data tied_window))) = ''2024-01-02''"
     "date_of_lowest (projr (dag_day_1_analyze_weather_data ANOMALY_THRESHOLD_DEGREES
        (to_weather_data tied_window))) = ''2024-01-02''"
    by (simp_all add: dag_day_1_run [OF ne] mx mn d2)
  from ties_resolve_to_earliest [OF ne, where threshold = ANOMALY_THRESHOLD_DEGREES,
      THEN conjunct1, unfolded mx mn]
  obtain r where r: "dag_day_1_analyze_weather_data ANOMALY_THRESHOLD_DEGREES
          (to_weather_data tied_window) = Inr r"
      "highest_temp r = 35" "lowest_temp r = 18"
      "earliest_with tied_window max_temp 35 (date_of_highest r)"
      "earliest_with tied_window min_temp 18 (date_of_lowest r)"
    by (elim exE conjE)
  from run r(1) have d: "date_of_highest r = ''2024-01-02''" "date_of_lowest r = ''2024-01-02''"
    by simp_all
  note e1 = r(4) [unfolded earliest_with_def d]
  note e2 = r(5) [unfolded earliest_with_def d]
  have a: "map_option date (find (\<lambda>s. max_temp s = 35) tied_window) = Some ''2024-01-02''"
      "\<forall>s \<in> set tied_window. max_temp s = 35 \<longrightarrow> ''2024-01-02'' \<le> date s"
    by (rule e1 [THEN conjunct1], rule e1 [THEN conjunct2, THEN mp, OF chrono])
  have b: "map_option date (find (\<lambda>s. min_temp s = 18) tied_window) = Some ''2024-01-02''"
      "\<forall>s \<in> set tied_window. min_temp s = 18 \<longrightarrow> ''2024-01-02'' \<le> date s"
    by (rule e2 [THEN conjunct1], rule e2 [THEN conjunct2, THEN mp, OF chrono])
  show ?thesis
    apply (intro conjI ne chrono)
    apply (rule exI [of _ r])
    apply (intro conjI r(1) r(2) r(3) d a b)
    done
qed

text \<open>
  Claim C4, the behaviour at the empty window. The list based scripts have a path for
  invalid input (the guard on \<^verbatim>\<open>weather_data\<close>), but the empty window is not sent down it:
  they fail with the \<^verbatim>\<open>ValueError\<close> of \<^verbatim>\<open>max()\<close>. The pandas script checks \<^verbatim>\<open>df.empty\<close> and
  returns early.
\<close>

theorem list_scripts_crash_on_empty_window:
  "dag_day_1_analyze_weather_data ANOMALY_THRESHOLD_DEGREES
      (to_weather_data ([] :: string daily_sample list)) = Inl ValueError \<and>
   dag_day_1_analyze_weather_data ANOMALY_THRESHOLD_DEGREES (None :: string weather_data)
      = Inl NoValidData \<and>
   weather_analyze_weather_data NORMAL_MAX_TEMP_HYD NORMAL_MIN_TEMP_HYD
      weather_ANOMALY_THRESHOLD_DEGREES (to_weather_data ([] :: string daily_sample list))
      = Inl ValueError \<and>
   weather_analyze_weather_data NORMAL_MAX_TEMP_HYD NORMAL_MIN_TEMP_HYD
      weather_ANOMALY_THRESHOLD_DEGREES (None :: string weather_data) = Inl NoValidData \<and>
   dag_1_analyze_weather_data (to_dataframe ([] :: string daily_sample list)) =
     (to_dataframe [], Inl NoValidData)"
  by (simp add: dag_day_1_analyze_weather_data_def weather_analyze_weather_data_def
      dag_1_analyze_weather_data_def to_dataframe_def to_weather_data_def)




end
